theory Spec2Isabelle
  imports Main "HOL-Library.AList" "HOL-Library.List_Lexorder" "HOL-Library.Char_ord"
    "HOL-Library.Multiset"
begin

section \<open>Values of the program\<close>

text \<open>
  A user id is a Python int. A \<open>datetime\<close> is an instant, counted in microseconds
  (the resolution of \<open>datetime\<close>); a \<open>timedelta\<close> is a difference of two instants, in
  microseconds as well. A Python \<open>str\<close> is the list of its UTF-8 bytes: the
  lexicographic order of the bytes is the order of the code points, which is how Python
  compares strings.
\<close>

type_synonym uid = int
type_synonym datetime = int
type_synonym timedelta = int

datatype py_error = TypeError | ClientError

section \<open>Helper functions (main.py, lines 94 to 109)\<close>

text \<open>
  \<open>int(td.total_seconds())\<close>: the seconds of a timedelta, truncated towards zero. The
  float that \<open>total_seconds\<close> returns is exact below \<open>2^53\<close> microseconds (some 285
  years), and the model is the exact quotient.
\<close>

definition total_seconds_int :: "timedelta \<Rightarrow> int" where
  "total_seconds_int td =
     (if 0 \<le> td then td div 1000000 else - ((- td) div 1000000))"

text \<open>The decimal text of a Python int, as an f-string prints it.\<close>

fun digits :: "nat \<Rightarrow> string" where
  "digits n =
     (if n < 10 then [char_of (48 + n)]
      else digits (n div 10) @ [char_of (48 + n mod 10)])"

declare digits.simps [simp del]

definition str_int :: "int \<Rightarrow> string" where
  "str_int i = (if i < 0 then CHR ''-'' # digits (nat (- i)) else digits (nat i))"

text \<open>
  \<open>format_timedelta\<close>: \<open>divmod\<close> is the floor division of Python, which is \<open>div\<close> and
  \<open>mod\<close> on \<open>int\<close>.
\<close>

definition format_timedelta :: "timedelta \<Rightarrow> string" where
  "format_timedelta td =
     (let secs = total_seconds_int td;
          hours = secs div 3600; rem = secs mod 3600;
          minutes = rem div 60; seconds = rem mod 60
      in if hours \<noteq> 0
           then str_int hours @ ''h '' @ str_int minutes @ ''m '' @ str_int seconds @ ''s''
         else if minutes \<noteq> 0
           then str_int minutes @ ''m '' @ str_int seconds @ ''s''
         else str_int seconds @ ''s'')"

text \<open>
  \<open>chunked\<close> is declared \<open>async def\<close> and has a \<open>yield\<close> in its body: it is an
  asynchronous generator function. The value below is the sequence of slices
  \<open>iterable[i:i + n]\<close>, for \<open>i\<close> in \<open>range(0, len(iterable), n)\<close>, that the generator
  yields to a consumer that iterates it with \<open>async for\<close>. Every caller passes
  \<open>n = 100\<close>; for \<open>n = 0\<close> Python's \<open>range\<close> raises and the model has no chunk.
\<close>

definition chunked :: "'a list \<Rightarrow> nat \<Rightarrow> 'a list list" where
  "chunked iterable n =
     map (\<lambda>j. take n (drop (j * n) iterable)) [0 ..< (length iterable + n - 1) div n]"

text \<open>
  \<open>await g\<close> where \<open>g\<close> is an asynchronous generator object: the object has no
  \<open>__await__\<close>, and the expression raises \<open>TypeError\<close> whatever the generator would
  have yielded.
\<close>

definition await_async_generator :: "'a \<Rightarrow> py_error + 'a" where
  "await_async_generator g = Inl TypeError"

section \<open>The presence query (main.py, lines 135 to 150)\<close>

record presence =
  userId :: uid
  userPresenceType :: "int option"
  lastLocation :: "string option"

text \<open>
  One upstream call: the transport raises, or a response comes back with a status and
  the \<open>userPresences\<close> of its body.
\<close>

datatype http_result = Raised | Response int "presence list"

text \<open>
  The body of the \<open>for chunk in ...\<close> loop: a status other than 200 skips the chunk
  (\<open>continue\<close>), a transport error is not caught in \<open>get_presences\<close> and leaves it.
\<close>

fun presence_loop :: "(uid list \<Rightarrow> http_result) \<Rightarrow> uid list list \<Rightarrow> presence list
    \<Rightarrow> py_error + presence list" where
  "presence_loop post [] results = Inr results"
| "presence_loop post (chunk # rest) results =
     (case post chunk of
        Raised \<Rightarrow> Inl ClientError
      | Response status data \<Rightarrow>
          if status \<noteq> 200 then presence_loop post rest results
          else presence_loop post rest (results @ data))"

definition get_presences :: "(uid list \<Rightarrow> http_result) \<Rightarrow> uid list
    \<Rightarrow> py_error + presence list" where
  "get_presences post user_ids =
     (if user_ids = [] then Inr []
      else case await_async_generator (chunked user_ids 100) of
             Inl e \<Rightarrow> Inl e
           | Inr chunks \<Rightarrow> presence_loop post chunks [])"

section \<open>The name query (main.py, lines 152 to 164)\<close>

record user_record =
  user_id :: uid
  user_name :: "string option"
  user_displayName :: "string option"

datatype users_result = UsersRaised | UsersResponse int "user_record list"

text \<open>\<open>u.get("name") or u.get("displayName") or str(u.get("id"))\<close>\<close>

definition label_of :: "user_record \<Rightarrow> string" where
  "label_of r =
     (case user_name r of
        Some n \<Rightarrow> if n \<noteq> [] then n else
          (case user_displayName r of
             Some d \<Rightarrow> if d \<noteq> [] then d else str_int (user_id r)
           | None \<Rightarrow> str_int (user_id r))
      | None \<Rightarrow>
          (case user_displayName r of
             Some d \<Rightarrow> if d \<noteq> [] then d else str_int (user_id r)
           | None \<Rightarrow> str_int (user_id r)))"

fun usernames_loop :: "(uid list \<Rightarrow> users_result) \<Rightarrow> uid list list \<Rightarrow> (uid \<rightharpoonup> string)
    \<Rightarrow> py_error + (uid \<rightharpoonup> string)" where
  "usernames_loop post [] res = Inr res"
| "usernames_loop post (chunk # rest) res =
     (case post chunk of
        UsersRaised \<Rightarrow> Inl ClientError
      | UsersResponse status data \<Rightarrow>
          if status \<noteq> 200 then usernames_loop post rest res
          else usernames_loop post rest
                 (foldl (\<lambda>m r. m(user_id r \<mapsto> label_of r)) res data))"

definition get_usernames :: "(uid list \<Rightarrow> users_result) \<Rightarrow> uid list
    \<Rightarrow> py_error + (uid \<rightharpoonup> string)" where
  "get_usernames post user_ids =
     (case await_async_generator (chunked user_ids 100) of
        Inl e \<Rightarrow> Inl e
      | Inr chunks \<Rightarrow> usernames_loop post chunks Map.empty)"

section \<open>State of the bot and its environment\<close>

text \<open>
  The globals of the module that the polling task reads and writes: \<open>online_since\<close>,
  \<open>game_since\<close>, \<open>last_online_set\<close>, \<open>status_message_id\<close>, and the
  \<open>status_message_id\<close> that \<open>state.json\<close> holds. \<open>clock_reads\<close> counts the calls
  of \<open>now_wib\<close> made so far: the clock is read once in every iteration of the
  presence loop, once for every online notification and once for the status box.
\<close>

record bot_state =
  online_since :: "uid \<rightharpoonup> datetime"
  game_since :: "uid \<rightharpoonup> datetime"
  last_online_set :: "uid set"
  status_message_id :: "int option"
  state_file :: "int option"
  clock_reads :: nat

text \<open>
  What the program takes from outside: the value of the \<open>k\<close>-th call of
  \<open>datetime.now(JAKARTA)\<close>, the global \<open>START_TIME\<close>, and two library functions,
  \<open>str.lower\<close> and \<open>strftime("%H:%M:%S %d/%m/%Y WIB")\<close>.
\<close>

record environment =
  clock :: "nat \<Rightarrow> datetime"
  START_TIME :: datetime
  str_lower :: "string \<Rightarrow> string"
  strftime :: "datetime \<Rightarrow> string"

definition RESTART_INTERVAL :: int where
  "RESTART_INTERVAL = 12 * 60 * 60"

definition BAR_LENGTH :: int where
  "BAR_LENGTH = 20"

definition now_wib :: "environment \<Rightarrow> bot_state \<Rightarrow> datetime" where
  "now_wib E s = clock E (clock_reads s)"

definition clock_read :: "bot_state \<Rightarrow> bot_state" where
  "clock_read s = s\<lparr>clock_reads := Suc (clock_reads s)\<rparr>"

text \<open>
  A notification handed to \<open>notif_channel.send\<close>. The text of an online notification
  holds the name and the time; the text of an offline notification holds the name, the
  time, \<open>format_timedelta(total_online)\<close> and \<open>format_timedelta(total_game)\<close>. The
  model keeps the user id the notification is about and the two durations themselves.
  A \<open>send\<close> that raises is caught on the spot and logged, so the list of notifications
  is the list of the calls of \<open>send\<close>.
\<close>

datatype event =
    OnlineNotif uid string datetime
  | OfflineNotif uid string datetime timedelta timedelta

fun event_uid :: "event \<Rightarrow> uid" where
  "event_uid (OnlineNotif u n t) = u"
| "event_uid (OfflineNotif u n t d g) = u"

fun is_online_notif :: "event \<Rightarrow> bool" where
  "is_online_notif (OnlineNotif u n t) = True"
| "is_online_notif (OfflineNotif u n t d g) = False"

definition online_events :: "uid \<Rightarrow> event list \<Rightarrow> event list" where
  "online_events u evs = filter (\<lambda>e. is_online_notif e \<and> event_uid e = u) evs"

definition offline_events :: "uid \<Rightarrow> event list \<Rightarrow> event list" where
  "offline_events u evs = filter (\<lambda>e. \<not> is_online_notif e \<and> event_uid e = u) evs"

text \<open>A line of the friend list: name, online duration, location, playing duration.\<close>

type_synonym display_line = "string \<times> string \<times> string \<times> string"

text \<open>
  The locals of one run of \<open>update_status_message\<close>. \<open>current_online_set\<close> is a Python
  set; the model keeps its elements in the order they were added, and the order in
  which \<open>for uid in new_online\<close> visits them is that order (Python leaves it open).
\<close>

record tick_locals =
  display_lines :: "display_line list"
  current_online_set :: "uid list"
  sent :: "event list"

definition no_locals :: tick_locals where
  "no_locals = \<lparr>display_lines = [], current_online_set = [], sent = []\<rparr>"

section \<open>The presence loop (main.py, lines 188 to 234)\<close>

text \<open>
  \<open>{int(p.get("userId")): p for p in presences}\<close>: a later record of the same user
  replaces the earlier one and keeps its place.
\<close>

definition presence_map_of :: "presence list \<Rightarrow> (uid \<times> presence) list" where
  "presence_map_of ps = foldl (\<lambda>m p. AList.update (userId p) p m) [] ps"

text \<open>
  \<open>presence.get("userPresenceType", 0)\<close>. The field of the record is an integer or is
  missing; a record whose field is the JSON value \<open>null\<close> is not represented.
\<close>

definition user_presence_type :: "presence \<Rightarrow> int" where
  "user_presence_type p = (case userPresenceType p of None \<Rightarrow> 0 | Some t \<Rightarrow> t)"

text \<open>\<open>presence.get("lastLocation") or "Tidak bermain"\<close>\<close>

definition last_location :: "presence \<Rightarrow> string" where
  "last_location p =
     (case lastLocation p of
        None \<Rightarrow> ''Tidak bermain''
      | Some x \<Rightarrow> if x = [] then ''Tidak bermain'' else x)"

text \<open>\<open>username_map.get(uid, str(uid))\<close>\<close>

definition name_of :: "(uid \<rightharpoonup> string) \<Rightarrow> uid \<Rightarrow> string" where
  "name_of username_map u = (case username_map u of None \<Rightarrow> str_int u | Some n \<Rightarrow> n)"

text \<open>Lines 205 to 212: the timers of a user seen online.\<close>

definition mark_online :: "datetime \<Rightarrow> uid \<Rightarrow> int \<Rightarrow> bot_state \<Rightarrow> bot_state" where
  "mark_online now u ptype s =
     (let s1 = (if online_since s u = None
                then s\<lparr>online_since := (online_since s)(u \<mapsto> now)\<rparr> else s)
      in if ptype = 2
         then (if game_since s1 u = None
               then s1\<lparr>game_since := (game_since s1)(u \<mapsto> now)\<rparr> else s1)
         else s1\<lparr>game_since := (game_since s1)(u := None)\<rparr>)"

text \<open>Lines 214 to 217: the line of the friend list.\<close>

definition display_line_of :: "datetime \<Rightarrow> uid \<Rightarrow> string \<Rightarrow> string \<Rightarrow> bot_state
    \<Rightarrow> display_line" where
  "display_line_of now u name location s =
     (let online_dur = now - (case online_since s u of None \<Rightarrow> now | Some t \<Rightarrow> t);
          game_dur = (case game_since s u of Some t \<Rightarrow> now - t | None \<Rightarrow> 0)
      in (name, format_timedelta online_dur, location, format_timedelta game_dur))"

text \<open>Lines 220 to 232: the notification for a user of \<open>last_online_set\<close> seen offline.\<close>

definition offline_notif :: "datetime \<Rightarrow> uid \<Rightarrow> string \<Rightarrow> bot_state \<Rightarrow> event" where
  "offline_notif now u name s =
     (let total_online = (case online_since s u of Some t \<Rightarrow> now - t | None \<Rightarrow> 0);
          total_game = (case game_since s u of Some t \<Rightarrow> now - t | None \<Rightarrow> 0)
      in OfflineNotif u name now total_online total_game)"

definition pop_timers :: "uid \<Rightarrow> bot_state \<Rightarrow> bot_state" where
  "pop_timers u s =
     s\<lparr>online_since := (online_since s)(u := None),
       game_since := (game_since s)(u := None)\<rparr>"

text \<open>One iteration of \<open>for uid, presence in presence_map.items()\<close>.\<close>

definition track_one :: "environment \<Rightarrow> (uid \<rightharpoonup> string) \<Rightarrow> uid \<times> presence
    \<Rightarrow> bot_state \<times> tick_locals \<Rightarrow> bot_state \<times> tick_locals" where
  "track_one E username_map up sl =
     (let u = fst up; p = snd up; s = fst sl; l = snd sl;
          now = now_wib E s;
          s' = clock_read s
      in if user_presence_type p \<noteq> 0 then
           (let s'' = mark_online now u (user_presence_type p) s'
            in (s'',
                l\<lparr>current_online_set :=
                    (if u \<in> set (current_online_set l) then current_online_set l
                     else current_online_set l @ [u]),
                  display_lines := display_lines l @
                    [display_line_of now u (name_of username_map u) (last_location p) s'']\<rparr>))
         else if u \<in> last_online_set s' then
           (pop_timers u s',
            l\<lparr>sent := sent l @ [offline_notif now u (name_of username_map u) s']\<rparr>)
         else (s', l))"

fun track_loop :: "environment \<Rightarrow> (uid \<rightharpoonup> string) \<Rightarrow> (uid \<times> presence) list
    \<Rightarrow> bot_state \<times> tick_locals \<Rightarrow> bot_state \<times> tick_locals" where
  "track_loop E username_map [] sl = sl"
| "track_loop E username_map (up # rest) sl =
     track_loop E username_map rest (track_one E username_map up sl)"

section \<open>Online notifications (main.py, lines 236 to 244)\<close>

fun notify_online :: "environment \<Rightarrow> (uid \<rightharpoonup> string) \<Rightarrow> uid list
    \<Rightarrow> bot_state \<times> tick_locals \<Rightarrow> bot_state \<times> tick_locals" where
  "notify_online E username_map [] sl = sl"
| "notify_online E username_map (u # rest) sl =
     notify_online E username_map rest
       (clock_read (fst sl),
        (snd sl)\<lparr>sent := sent (snd sl) @
           [OnlineNotif u (name_of username_map u) (now_wib E (fst sl))]\<rparr>)"

definition new_online :: "bot_state \<Rightarrow> tick_locals \<Rightarrow> uid list" where
  "new_online s l = filter (\<lambda>u. u \<notin> last_online_set s) (current_online_set l)"

section \<open>The status box (main.py, lines 246 to 275)\<close>

text \<open>
  The text of the status message is a fixed template around the values below: the
  uptime, the number of lines, the time of the update, the time to the restart, the
  number of filled cells of the bar, and the numbered lines of the friend list (an
  empty list stands for the text shown when nobody is online).
\<close>

record status_box =
  uptime_s :: string
  friends_online :: nat
  last_update :: string
  remaining_s :: string
  filled :: int
  friends_text :: "(nat \<times> display_line) list"

text \<open>\<open>display_lines.sort(key=lambda x: x[0].lower())\<close>: the sort of Python is stable.\<close>

definition sort_display_lines :: "environment \<Rightarrow> display_line list \<Rightarrow> display_line list" where
  "sort_display_lines E dls = sort_key (\<lambda>x. str_lower E (fst x)) dls"

text \<open>
  \<open>progress\<close> is a float in the source; \<open>int(progress * BAR_LENGTH)\<close> is written here
  with integers, \<open>elapsed\<close> clamped between 0 and the interval.
\<close>

definition render_status :: "environment \<Rightarrow> display_line list \<Rightarrow> datetime \<Rightarrow> status_box" where
  "render_status E dls now =
     (let sorted_lines = sort_display_lines E dls;
          uptime = now - START_TIME E;
          elapsed = total_seconds_int uptime;
          remaining = max (RESTART_INTERVAL - elapsed) 0
      in \<lparr>uptime_s = format_timedelta uptime,
          friends_online = length sorted_lines,
          last_update = strftime E now,
          remaining_s = format_timedelta (remaining * 1000000),
          filled = (min (max elapsed 0) RESTART_INTERVAL * BAR_LENGTH) div RESTART_INTERVAL,
          friends_text = enumerate 1 sorted_lines\<rparr>)"

section \<open>Publishing the status message (main.py, lines 277 to 299)\<close>

text \<open>
  What the status channel and the file system answer during one run: the outcome of
  \<open>fetch_message\<close> followed by \<open>edit\<close>, the id of the message that
  \<open>status_channel.send\<close> creates (\<open>None\<close> when it raises), and whether \<open>state.json\<close>
  can be opened for writing.
\<close>

datatype edit_outcome = Edited | NotFound | Forbidden | EditFailed

record destination =
  edit_result :: edit_outcome
  send_result :: "int option"
  write_ok :: bool

datatype log_entry = MissingPermissions | FailedToEdit | FailedToSendOrUpdate

record publish_log =
  created :: "int list"
  logged :: "log_entry list"

text \<open>\<open>if status_message_id:\<close> is false for \<open>None\<close> and for 0.\<close>

definition holds_handle :: "bot_state \<Rightarrow> bool" where
  "holds_handle s = (case status_message_id s of None \<Rightarrow> False | Some i \<Rightarrow> i \<noteq> 0)"

text \<open>Lines 294 to 297; a failure to write is caught by the outer \<open>except\<close> of line 298.\<close>

definition persist :: "destination \<Rightarrow> bot_state \<Rightarrow> publish_log \<Rightarrow> bot_state \<times> publish_log" where
  "persist D s lg =
     (if write_ok D then (s\<lparr>state_file := status_message_id s\<rparr>, lg)
      else (s, lg\<lparr>logged := logged lg @ [FailedToSendOrUpdate]\<rparr>))"

text \<open>Lines 284 to 285 and 291 to 292; a \<open>send\<close> that raises is caught at line 298.\<close>

definition send_new :: "destination \<Rightarrow> bot_state \<Rightarrow> bot_state \<times> publish_log" where
  "send_new D s =
     (case send_result D of
        None \<Rightarrow> (s, \<lparr>created = [], logged = [FailedToSendOrUpdate]\<rparr>)
      | Some i \<Rightarrow> persist D (s\<lparr>status_message_id := Some i\<rparr>) \<lparr>created = [i], logged = []\<rparr>)"

definition publish :: "destination \<Rightarrow> bot_state \<Rightarrow> bot_state \<times> publish_log" where
  "publish D s =
     (if holds_handle s then
        (case edit_result D of
           Edited \<Rightarrow> persist D s \<lparr>created = [], logged = []\<rparr>
         | NotFound \<Rightarrow> send_new D s
         | Forbidden \<Rightarrow> persist D s \<lparr>created = [], logged = [MissingPermissions]\<rparr>
         | EditFailed \<Rightarrow> persist D s \<lparr>created = [], logged = [FailedToEdit]\<rparr>)
      else send_new D s)"

section \<open>The run after the two queries (main.py, lines 188 to 192 and 196 to 303)\<close>

text \<open>
  What a run does once it has the result of \<open>get_presences\<close> (line 187) and the name
  map of line 194: these two and the answers of the destination are its inputs. The
  calls themselves are made in \<open>update_status_message\<close> below. As the two queries are
  written, \<open>get_presences\<close> returns only for an empty list and \<open>get_usernames\<close> never
  returns, so the program itself enters this part with no presence record and an empty
  name map.
\<close>

record tick_input =
  presences :: "presence list"
  usernames :: "uid \<rightharpoonup> string"
  answers :: destination

record tick_output =
  events :: "event list"
  status :: status_box
  published :: publish_log

definition tick_body :: "environment \<Rightarrow> tick_input \<Rightarrow> bot_state \<Rightarrow> bot_state \<times> tick_output" where
  "tick_body E i s =
     (let sl1 = track_loop E (usernames i) (presence_map_of (presences i)) (s, no_locals);
          sl2 = notify_online E (usernames i) (new_online (fst sl1) (snd sl1)) sl1;
          now = now_wib E (fst sl2);
          box = render_status E (display_lines (snd sl2)) now;
          pub = publish (answers i) (clock_read (fst sl2))
      in ((fst pub)\<lparr>last_online_set := set (current_online_set (snd sl2))\<rparr>,
          \<lparr>events = sent (snd sl2), status = box, published = snd pub\<rparr>))"

text \<open>The globals at the start of the process; \<open>h\<close> is the id read from \<open>state.json\<close>.\<close>

definition initial_state :: "int option \<Rightarrow> bot_state" where
  "initial_state h =
     \<lparr>online_since = Map.empty, game_since = Map.empty, last_online_set = {},
      status_message_id = h, state_file = h, clock_reads = 0\<rparr>"

text \<open>What a run observes of a user: nothing, or the presence type of its record.\<close>

definition observed :: "tick_input \<Rightarrow> uid \<Rightarrow> int option" where
  "observed i u = map_option user_presence_type (map_of (presence_map_of (presences i)) u)"

text \<open>
  The number of iterations of the presence loop that come before the one of user \<open>u\<close>:
  the clock value of that iteration is \<open>clock E (clock_reads s + iteration_of i u)\<close>.
\<close>

definition iteration_of :: "tick_input \<Rightarrow> uid \<Rightarrow> nat" where
  "iteration_of i u = length (takeWhile (\<lambda>x. fst x \<noteq> u) (presence_map_of (presences i)))"

section \<open>The polling task as a whole (main.py, lines 168 to 306)\<close>

text \<open>
  A run is skipped when the bot is closed or a channel is missing. \<open>monitored\<close> is the
  list passed to \<open>get_presences\<close> at line 187. An exception raised by
  \<open>get_presences\<close> or \<open>get_usernames\<close> reaches the \<open>except\<close> of line 305: the run is
  abandoned, and the state is as it was, since nothing was written before line 196.
\<close>

datatype run_result = Skipped | Abandoned py_error | Completed tick_output

definition update_status_message :: "environment \<Rightarrow> bool \<Rightarrow> bool \<Rightarrow> uid list
    \<Rightarrow> (uid list \<Rightarrow> http_result) \<Rightarrow> (uid list \<Rightarrow> users_result) \<Rightarrow> destination
    \<Rightarrow> bot_state \<Rightarrow> bot_state \<times> run_result" where
  "update_status_message E is_closed channels_found monitored presence_post users_post D s =
     (if is_closed then (s, Skipped)
      else if \<not> channels_found then (s, Skipped)
      else case get_presences presence_post monitored of
             Inl e \<Rightarrow> (s, Abandoned e)
           | Inr ps \<Rightarrow>
               (let ids_to_label = map fst (presence_map_of ps)
                in case (if ids_to_label \<noteq> [] then get_usernames users_post ids_to_label
                         else Inr Map.empty) of
                     Inl e \<Rightarrow> (s, Abandoned e)
                   | Inr username_map \<Rightarrow>
                       (let r = tick_body E
                                  \<lparr>presences = ps, usernames = username_map, answers = D\<rparr> s
                        in (fst r, Completed (snd r)))))"

text \<open>The notifications of a run: a run that is skipped or abandoned has sent none.\<close>

definition run_events :: "run_result \<Rightarrow> event list" where
  "run_events r = (case r of Skipped \<Rightarrow> [] | Abandoned e \<Rightarrow> [] | Completed out \<Rightarrow> events out)"

section \<open>The restart check (main.py, lines 309 to 328)\<close>

text \<open>
  \<open>bot.get_channel\<close> finds no channel, or a channel whose \<open>send\<close> succeeds or raises.
  The module never imports \<open>sys\<close>: the call of \<open>os.execv\<close> raises \<open>NameError\<close> when its
  arguments are evaluated, and the \<open>except\<close> of line 327 logs it, as it logs a \<open>send\<close>
  that raises.
\<close>

datatype channel = NoChannel | Channel bool

datatype restart_notif = RestartWarning | RestartNotice

datatype check_error = SendRaised | SysNameError

record check_result =
  notifs :: "restart_notif list"
  caught :: "check_error option"

definition auto_restart_check :: "environment \<Rightarrow> channel \<Rightarrow> datetime \<Rightarrow> check_result" where
  "auto_restart_check E ch now =
     (let elapsed = total_seconds_int (now - START_TIME E);
          warn = (RESTART_INTERVAL - elapsed \<le> 300 \<and> RESTART_INTERVAL - elapsed > 295)
      in if warn \<and> ch = Channel False then \<lparr>notifs = [RestartWarning], caught = Some SendRaised\<rparr>
         else
           (let w = (if warn \<and> ch = Channel True then [RestartWarning] else [])
            in if elapsed \<ge> RESTART_INTERVAL then
                 (case ch of
                    NoChannel \<Rightarrow> \<lparr>notifs = w, caught = Some SysNameError\<rparr>
                  | Channel True \<Rightarrow> \<lparr>notifs = w @ [RestartNotice], caught = Some SysNameError\<rparr>
                  | Channel False \<Rightarrow> \<lparr>notifs = w @ [RestartNotice], caught = Some SendRaised\<rparr>)
               else \<lparr>notifs = w, caught = None\<rparr>))"

text \<open>The warnings sent by a sequence of checks, given the clock value of each.\<close>

definition warnings_sent :: "environment \<Rightarrow> channel \<Rightarrow> datetime list \<Rightarrow> nat" where
  "warnings_sent E ch nows =
     length (filter (\<lambda>n. n = RestartWarning)
       (concat (map (\<lambda>now. notifs (auto_restart_check E ch now)) nows)))"

section \<open>Concrete inputs\<close>

text \<open>
  A clock that advances by one second at every reading, a record of a user with a
  presence type, and a run whose destination accepts everything.
\<close>

definition ascii_lower :: "string \<Rightarrow> string" where
  "ascii_lower = map (\<lambda>c. if CHR ''A'' \<le> c \<and> c \<le> CHR ''Z''
                          then char_of (of_char c + (32 :: nat)) else c)"

definition test_env :: environment where
  "test_env = \<lparr>clock = (\<lambda>k. int k * 1000000), START_TIME = 0,
               str_lower = ascii_lower, strftime = str_int\<rparr>"

definition seen :: "uid \<Rightarrow> int \<Rightarrow> presence" where
  "seen u t = \<lparr>userId = u, userPresenceType = Some t, lastLocation = None\<rparr>"

definition accepting :: destination where
  "accepting = \<lparr>edit_result = Edited, send_result = Some 1, write_ok = True\<rparr>"

definition tick_of :: "presence list \<Rightarrow> tick_input" where
  "tick_of ps = \<lparr>presences = ps, usernames = Map.empty, answers = accepting\<rparr>"




section \<open>The chunks and the loop of the presence query\<close>

lemma chunked_rec:
  assumes "0 < n" "xs \<noteq> []"
  shows "chunked xs n = take n xs # chunked (drop n xs) n"
proof -
  have pos: "0 < length xs" using assms(2) by simp
  have e: "length xs + n - 1 = (length xs - 1) + n" using pos by arith
  have l: "(length xs + n - 1) div n = Suc ((length xs - 1) div n)"
    unfolding e using assms(1) div_add_self2[of n "length xs - 1"] by simp
  have r: "(length xs - n + n - 1) div n = (length xs - 1) div n"
  proof (cases "length xs \<le> n")
    case True
    have "length xs - 1 < n" "length xs - n + n - 1 < n" using True assms(1) pos by arith+
    then show ?thesis by (simp only: div_less)
  next
    case False
    then have "length xs - n + n - 1 = length xs - 1" by arith
    then show ?thesis by (simp only:)
  qed
  have k: "(length xs + n - 1) div n = Suc ((length xs - n + n - 1) div n)"
    using l r by simp
  have "chunked xs n =
          take n xs # map (\<lambda>j. take n (drop (Suc j * n) xs)) [0 ..< (length xs - n + n - 1) div n]"
    unfolding chunked_def k map_upt_Suc by simp
  also have "map (\<lambda>j. take n (drop (Suc j * n) xs)) [0 ..< (length xs - n + n - 1) div n]
              = chunked (drop n xs) n"
    by (simp add: chunked_def add.commute)
  finally show ?thesis .
qed


lemma chunked_Nil: "0 < n \<Longrightarrow> chunked [] n = []"
  by (simp add: chunked_def)

lemma concat_chunked:
  assumes "0 < n"
  shows "concat (chunked xs n) = xs"
proof (induction "length xs" arbitrary: xs rule: less_induct)
  case less
  show ?case
  proof (cases "xs = []")
    case True
    then show ?thesis using assms by (simp add: chunked_Nil)
  next
    case False
    then have "length (drop n xs) < length xs" using assms by simp
    then have "concat (chunked (drop n xs) n) = drop n xs" by (rule less)
    then show ?thesis by (simp add: chunked_rec[OF assms False])
  qed
qed

lemma chunked_sizes: "c \<in> set (chunked xs n) \<Longrightarrow> length c \<le> n"
  by (auto simp add: chunked_def)

lemma chunked_250:
  assumes "length xs = 250"
  shows "map length (chunked xs 100) = [100, 100, 50]"
proof -
  have "[0 ..< (250 + 100 - 1) div 100] = [0, 1, 2::nat]"
    by (simp add: upt_rec)
  then show ?thesis using assms by (simp add: chunked_def)
qed

text \<open>What the loop of \<open>get_presences\<close> returns when no call raises.\<close>

lemma presence_loop_concat:
  assumes "\<forall>c\<in>set chunks. post c \<noteq> Raised"
  shows "presence_loop post chunks results =
           Inr (results @ concat (map (\<lambda>c. case post c of
                                             Raised \<Rightarrow> []
                                           | Response code data \<Rightarrow> if code = 200 then data else [])
                                      chunks))"
  using assms
  by (induction chunks arbitrary: results) (auto split: http_result.splits)

lemma presence_loop_raised:
  "post c = Raised \<Longrightarrow> presence_loop post (c # chunks) results = Inl ClientError"
  by simp

section \<open>Properties of the presence loop\<close>

lemma foldl_update_distinct:
  "distinct (map fst m) \<Longrightarrow> distinct (map fst (foldl (\<lambda>m p. AList.update (userId p) p m) m ps))"
  by (induction ps arbitrary: m) (simp_all add: distinct_update)

lemma distinct_presence_map_of: "distinct (map fst (presence_map_of ps))"
  by (simp add: presence_map_of_def foldl_update_distinct)

lemmas track_defs = track_one_def Let_def mark_online_def pop_timers_def clock_read_def
  now_wib_def

lemma track_one_last [simp]:
  "last_online_set (fst (track_one E um up sl)) = last_online_set (fst sl)"
  by (simp add: track_defs)

lemma track_one_reads [simp]:
  "clock_reads (fst (track_one E um up sl)) = Suc (clock_reads (fst sl))"
  by (simp add: track_defs)

lemma track_one_handle [simp]:
  "status_message_id (fst (track_one E um up sl)) = status_message_id (fst sl)"
  "state_file (fst (track_one E um up sl)) = state_file (fst sl)"
  by (simp_all add: track_defs)

lemma track_loop_last [simp]:
  "last_online_set (fst (track_loop E um pm sl)) = last_online_set (fst sl)"
  by (induction pm arbitrary: sl) simp_all

lemma track_loop_reads [simp]:
  "clock_reads (fst (track_loop E um pm sl)) = clock_reads (fst sl) + length pm"
  by (induction pm arbitrary: sl) simp_all

lemma track_loop_handle [simp]:
  "status_message_id (fst (track_loop E um pm sl)) = status_message_id (fst sl)"
  "state_file (fst (track_loop E um pm sl)) = state_file (fst sl)"
  by (induction pm arbitrary: sl) simp_all

lemma track_one_other:
  assumes "fst up \<noteq> u"
  shows "online_since (fst (track_one E um up sl)) u = online_since (fst sl) u"
    and "game_since (fst (track_one E um up sl)) u = game_since (fst sl) u"
    and "offline_events u (sent (snd (track_one E um up sl))) = offline_events u (sent (snd sl))"
    and "u \<in> set (current_online_set (snd (track_one E um up sl)))
          \<longleftrightarrow> u \<in> set (current_online_set (snd sl))"
  using assms by (auto simp add: track_defs offline_events_def offline_notif_def)

lemma track_one_online_events [simp]:
  "online_events u (sent (snd (track_one E um up sl))) = online_events u (sent (snd sl))"
  by (simp add: track_defs online_events_def offline_notif_def)

lemma track_loop_online_events [simp]:
  "online_events u (sent (snd (track_loop E um pm sl))) = online_events u (sent (snd sl))"
  by (induction pm arbitrary: sl) simp_all

lemma track_loop_other:
  assumes "u \<notin> fst ` set pm"
  shows "online_since (fst (track_loop E um pm sl)) u = online_since (fst sl) u"
    and "game_since (fst (track_loop E um pm sl)) u = game_since (fst sl) u"
    and "offline_events u (sent (snd (track_loop E um pm sl))) = offline_events u (sent (snd sl))"
    and "u \<in> set (current_online_set (snd (track_loop E um pm sl)))
          \<longleftrightarrow> u \<in> set (current_online_set (snd sl))"
  using assms by (induction pm arbitrary: sl) (simp_all add: track_one_other)

lemma track_loop_append:
  "track_loop E um (xs @ ys) sl = track_loop E um ys (track_loop E um xs sl)"
  by (induction xs arbitrary: sl) simp_all

text \<open>The iteration of a user: what it does to the user's own timers and notifications.\<close>

lemma track_one_self_online:
  assumes "user_presence_type p \<noteq> 0"
  shows "online_since (fst (track_one E um (u, p) sl)) u =
           Some (case online_since (fst sl) u of None \<Rightarrow> clock E (clock_reads (fst sl)) | Some t \<Rightarrow> t)"
    and "game_since (fst (track_one E um (u, p) sl)) u =
           (if user_presence_type p = 2
            then Some (case game_since (fst sl) u of None \<Rightarrow> clock E (clock_reads (fst sl)) | Some t \<Rightarrow> t)
            else None)"
    and "offline_events u (sent (snd (track_one E um (u, p) sl))) = offline_events u (sent (snd sl))"
    and "u \<in> set (current_online_set (snd (track_one E um (u, p) sl)))"
  using assms by (auto simp add: track_defs split: option.splits)

lemma track_one_self_offline_in:
  assumes "user_presence_type p = 0" "u \<in> last_online_set (fst sl)"
  shows "online_since (fst (track_one E um (u, p) sl)) u = None"
    and "game_since (fst (track_one E um (u, p) sl)) u = None"
    and "offline_events u (sent (snd (track_one E um (u, p) sl))) =
           offline_events u (sent (snd sl)) @
             [offline_notif (clock E (clock_reads (fst sl))) u (name_of um u) (fst sl)]"
    and "u \<in> set (current_online_set (snd (track_one E um (u, p) sl)))
          \<longleftrightarrow> u \<in> set (current_online_set (snd sl))"
  using assms by (auto simp add: track_defs offline_events_def offline_notif_def)

lemma track_one_self_offline_out:
  assumes "user_presence_type p = 0" "u \<notin> last_online_set (fst sl)"
  shows "online_since (fst (track_one E um (u, p) sl)) u = online_since (fst sl) u"
    and "game_since (fst (track_one E um (u, p) sl)) u = game_since (fst sl) u"
    and "offline_events u (sent (snd (track_one E um (u, p) sl))) = offline_events u (sent (snd sl))"
    and "u \<in> set (current_online_set (snd (track_one E um (u, p) sl)))
          \<longleftrightarrow> u \<in> set (current_online_set (snd sl))"
  using assms by (auto simp add: track_defs)

lemma map_of_split:
  assumes "distinct (map fst pm)" "map_of pm u = Some p"
  shows "\<exists>post. pm = takeWhile (\<lambda>x. fst x \<noteq> u) pm @ (u, p) # post
           \<and> u \<notin> fst ` set (takeWhile (\<lambda>x. fst x \<noteq> u) pm) \<and> u \<notin> fst ` set post"
proof -
  have mem: "(u, p) \<in> set pm" using assms(2) by (rule map_of_SomeD)
  let ?pre = "takeWhile (\<lambda>x. fst x \<noteq> u) pm"
  let ?rest = "dropWhile (\<lambda>x. fst x \<noteq> u) pm"
  have "?rest \<noteq> []" using mem by force
  then obtain x post where rest: "?rest = x # post" by (cases ?rest) auto
  have fx: "fst x = u" using hd_dropWhile[of "\<lambda>x. fst x \<noteq> u" pm] rest by auto
  have pm: "pm = ?pre @ x # post" using takeWhile_dropWhile_id[of "\<lambda>x. fst x \<noteq> u" pm] rest by simp
  have "x \<in> set pm" using pm by (metis in_set_conv_decomp)
  then have "(fst x, snd x) \<in> set pm" by simp
  then have "map_of pm (fst x) = Some (snd x)" using assms(1) by (rule map_of_is_SomeI[rotated])
  then have "snd x = p" using fx assms(2) by simp
  then have x: "x = (u, p)" using fx by (simp add: prod_eq_iff)
  have pre: "u \<notin> fst ` set ?pre" by (auto dest: set_takeWhileD)
  have "distinct (map fst (?pre @ x # post))" using assms(1) pm by simp
  then have "u \<notin> fst ` set post" using fx by auto
  then show ?thesis using pm x pre by blast
qed


lemma track_one_current_set:
  "set (current_online_set (snd (track_one E um up sl))) =
     set (current_online_set (snd sl)) \<union> (if user_presence_type (snd up) \<noteq> 0 then {fst up} else {})"
  by (auto simp add: track_defs)

lemma track_one_current_distinct:
  "distinct (current_online_set (snd sl)) \<Longrightarrow>
   distinct (current_online_set (snd (track_one E um up sl)))"
  by (auto simp add: track_defs)

lemma track_loop_current_set:
  "set (current_online_set (snd (track_loop E um pm sl))) =
     set (current_online_set (snd sl)) \<union>
     {u. \<exists>p. (u, p) \<in> set pm \<and> user_presence_type p \<noteq> 0}"
proof (induction pm arbitrary: sl)
  case Nil
  then show ?case by simp
next
  case (Cons up pm)
  show ?case
    unfolding track_loop.simps Cons.IH track_one_current_set
    by (cases up) auto
qed

lemma track_loop_current_distinct:
  "distinct (current_online_set (snd sl)) \<Longrightarrow>
   distinct (current_online_set (snd (track_loop E um pm sl)))"
  by (induction pm arbitrary: sl) (simp_all add: track_one_current_distinct)

lemma online_set_of_map:
  assumes "distinct (map fst pm)"
  shows "{u. \<exists>p. (u, p) \<in> set pm \<and> user_presence_type p \<noteq> 0} =
         {u. \<exists>t. map_option user_presence_type (map_of pm u) = Some t \<and> t \<noteq> 0}"
  using assms by auto

text \<open>The notification loop.\<close>

lemma notify_online_state [simp]:
  "online_since (fst (notify_online E um us sl)) = online_since (fst sl)"
  "game_since (fst (notify_online E um us sl)) = game_since (fst sl)"
  "last_online_set (fst (notify_online E um us sl)) = last_online_set (fst sl)"
  "status_message_id (fst (notify_online E um us sl)) = status_message_id (fst sl)"
  "state_file (fst (notify_online E um us sl)) = state_file (fst sl)"
  "clock_reads (fst (notify_online E um us sl)) = clock_reads (fst sl) + length us"
  by (induction us arbitrary: sl; simp add: clock_read_def)+

lemma notify_online_locals [simp]:
  "display_lines (snd (notify_online E um us sl)) = display_lines (snd sl)"
  "current_online_set (snd (notify_online E um us sl)) = current_online_set (snd sl)"
  by (induction us arbitrary: sl; simp)+

lemma notify_online_offline_events [simp]:
  "offline_events u (sent (snd (notify_online E um us sl))) = offline_events u (sent (snd sl))"
  by (induction us arbitrary: sl) (simp_all add: offline_events_def)

lemma notify_online_count:
  "length (online_events u (sent (snd (notify_online E um us sl)))) =
     length (online_events u (sent (snd sl))) + count_list us u"
  by (induction us arbitrary: sl) (simp_all add: online_events_def)

text \<open>The publisher leaves the timers, the online set and the clock alone.\<close>

lemmas publish_defs = publish_def send_new_def persist_def

lemma publish_frame [simp]:
  "online_since (fst (publish D s)) = online_since s"
  "game_since (fst (publish D s)) = game_since s"
  "last_online_set (fst (publish D s)) = last_online_set s"
  "clock_reads (fst (publish D s)) = clock_reads s"
  by (simp_all add: publish_defs split: edit_outcome.splits option.splits)

text \<open>The run as a whole, in terms of the presence loop.\<close>

lemma tick_body_online_since:
  "online_since (fst (tick_body E i s)) =
     online_since (fst (track_loop E (usernames i) (presence_map_of (presences i)) (s, no_locals)))"
  by (simp add: tick_body_def Let_def clock_read_def)

lemma tick_body_game_since:
  "game_since (fst (tick_body E i s)) =
     game_since (fst (track_loop E (usernames i) (presence_map_of (presences i)) (s, no_locals)))"
  by (simp add: tick_body_def Let_def clock_read_def)

lemma tick_body_last_online_set:
  "last_online_set (fst (tick_body E i s)) = {u. \<exists>t. observed i u = Some t \<and> t \<noteq> 0}"
  by (simp add: tick_body_def Let_def track_loop_current_set no_locals_def observed_def
      online_set_of_map[OF distinct_presence_map_of])

lemma tick_body_offline_events:
  "offline_events u (events (snd (tick_body E i s))) =
     offline_events u (sent (snd (track_loop E (usernames i) (presence_map_of (presences i))
        (s, no_locals))))"
  by (simp add: tick_body_def Let_def)

lemma count_list_distinct:
  "distinct xs \<Longrightarrow> count_list xs x = (if x \<in> set xs then 1 else 0)"
  by (induction xs) auto

lemma tick_body_online_count:
  "length (online_events u (events (snd (tick_body E i s)))) =
     (if (\<exists>t. observed i u = Some t \<and> t \<noteq> 0) \<and> u \<notin> last_online_set s then 1 else 0)"
proof -
  let ?sl = "track_loop E (usernames i) (presence_map_of (presences i)) (s, no_locals)"
  have d: "distinct (current_online_set (snd ?sl))"
    by (rule track_loop_current_distinct) (simp add: no_locals_def)
  have m: "u \<in> set (current_online_set (snd ?sl)) \<longleftrightarrow> (\<exists>t. observed i u = Some t \<and> t \<noteq> 0)"
    by (simp add: track_loop_current_set no_locals_def observed_def
        online_set_of_map[OF distinct_presence_map_of])
  have "length (online_events u (events (snd (tick_body E i s)))) =
          count_list (new_online (fst ?sl) (snd ?sl)) u"
    by (simp add: tick_body_def Let_def notify_online_count)
       (simp add: online_events_def no_locals_def)
  also have "\<dots> = (if u \<in> set (current_online_set (snd ?sl)) \<and> u \<notin> last_online_set s then 1 else 0)"
    using d by (simp add: new_online_def count_list_distinct)
  finally show ?thesis using m by simp
qed



lemma track_loop_decompose:
  assumes "distinct (map fst pm)" "map_of pm u = Some p"
  obtains sl' sl'' where
    "online_since (fst sl') u = online_since (fst sl) u"
    "game_since (fst sl') u = game_since (fst sl) u"
    "offline_events u (sent (snd sl')) = offline_events u (sent (snd sl))"
    "last_online_set (fst sl') = last_online_set (fst sl)"
    "clock_reads (fst sl') = clock_reads (fst sl) + length (takeWhile (\<lambda>x. fst x \<noteq> u) pm)"
    "sl'' = track_one E um (u, p) sl'"
    "online_since (fst (track_loop E um pm sl)) u = online_since (fst sl'') u"
    "game_since (fst (track_loop E um pm sl)) u = game_since (fst sl'') u"
    "offline_events u (sent (snd (track_loop E um pm sl))) = offline_events u (sent (snd sl''))"
proof -
  define pre where "pre = takeWhile (\<lambda>x. fst x \<noteq> u) pm"
  from map_of_split[OF assms] obtain post where
    pm: "pm = pre @ (u, p) # post" and pre: "u \<notin> fst ` set pre" and post: "u \<notin> fst ` set post"
    unfolding pre_def by blast
  define sl' where "sl' = track_loop E um pre sl"
  define sl'' where "sl'' = track_one E um (u, p) sl'"
  have run: "track_loop E um pm sl = track_loop E um post sl''"
    by (simp add: pm track_loop_append sl'_def sl''_def)
  show thesis
  proof (rule that[of sl' sl''])
    show "online_since (fst sl') u = online_since (fst sl) u"
      unfolding sl'_def by (rule track_loop_other(1)[OF pre])
    show "game_since (fst sl') u = game_since (fst sl) u"
      unfolding sl'_def by (rule track_loop_other(2)[OF pre])
    show "offline_events u (sent (snd sl')) = offline_events u (sent (snd sl))"
      unfolding sl'_def by (rule track_loop_other(3)[OF pre])
    show "last_online_set (fst sl') = last_online_set (fst sl)"
      unfolding sl'_def by simp
    show "clock_reads (fst sl') = clock_reads (fst sl) + length (takeWhile (\<lambda>x. fst x \<noteq> u) pm)"
      unfolding sl'_def pre_def by simp
    show "sl'' = track_one E um (u, p) sl'" by (rule sl''_def)
    show "online_since (fst (track_loop E um pm sl)) u = online_since (fst sl'') u"
      unfolding run by (rule track_loop_other(1)[OF post])
    show "game_since (fst (track_loop E um pm sl)) u = game_since (fst sl'') u"
      unfolding run by (rule track_loop_other(2)[OF post])
    show "offline_events u (sent (snd (track_loop E um pm sl))) = offline_events u (sent (snd sl''))"
      unfolding run by (rule track_loop_other(3)[OF post])
  qed
qed

lemma offline_notif_cong:
  "online_since s' u = online_since s u \<Longrightarrow> game_since s' u = game_since s u \<Longrightarrow>
   offline_notif now u n s' = offline_notif now u n s"
  by (simp add: offline_notif_def)

lemma track_loop_observed_online:
  fixes E :: environment and sl :: "bot_state \<times> tick_locals"
  assumes "distinct (map fst pm)" "map_of pm u = Some p" "user_presence_type p \<noteq> 0"
  defines "now \<equiv> clock E (clock_reads (fst sl) + length (takeWhile (\<lambda>x. fst x \<noteq> u) pm))"
  shows "online_since (fst (track_loop E um pm sl)) u =
           Some (case online_since (fst sl) u of None \<Rightarrow> now | Some t \<Rightarrow> t)"
    and "game_since (fst (track_loop E um pm sl)) u =
           (if user_presence_type p = 2
            then Some (case game_since (fst sl) u of None \<Rightarrow> now | Some t \<Rightarrow> t)
            else None)"
    and "offline_events u (sent (snd (track_loop E um pm sl))) = offline_events u (sent (snd sl))"
proof -
  from track_loop_decompose[OF assms(1,2), where sl=sl and E=E and um=um] obtain sl' sl'' where
    h: "online_since (fst sl') u = online_since (fst sl) u"
    "game_since (fst sl') u = game_since (fst sl) u"
    "offline_events u (sent (snd sl')) = offline_events u (sent (snd sl))"
    "last_online_set (fst sl') = last_online_set (fst sl)"
    "clock_reads (fst sl') = clock_reads (fst sl) + length (takeWhile (\<lambda>x. fst x \<noteq> u) pm)"
    "sl'' = track_one E um (u, p) sl'"
    "online_since (fst (track_loop E um pm sl)) u = online_since (fst sl'') u"
    "game_since (fst (track_loop E um pm sl)) u = game_since (fst sl'') u"
    "offline_events u (sent (snd (track_loop E um pm sl))) = offline_events u (sent (snd sl''))"
    by blast
  note s = track_one_self_online[OF assms(3), where E=E and um=um and u=u and sl=sl']
  show "online_since (fst (track_loop E um pm sl)) u =
           Some (case online_since (fst sl) u of None \<Rightarrow> now | Some t \<Rightarrow> t)"
    using h s(1) by (simp add: now_def cong: option.case_cong)
  show "game_since (fst (track_loop E um pm sl)) u =
           (if user_presence_type p = 2
            then Some (case game_since (fst sl) u of None \<Rightarrow> now | Some t \<Rightarrow> t)
            else None)"
    using h s(2) by (simp add: now_def cong: option.case_cong)
  show "offline_events u (sent (snd (track_loop E um pm sl))) = offline_events u (sent (snd sl))"
    using h s(3) by simp
qed

lemma track_loop_observed_offline_in:
  fixes E :: environment and sl :: "bot_state \<times> tick_locals"
  assumes "distinct (map fst pm)" "map_of pm u = Some p" "user_presence_type p = 0"
    "u \<in> last_online_set (fst sl)"
  defines "now \<equiv> clock E (clock_reads (fst sl) + length (takeWhile (\<lambda>x. fst x \<noteq> u) pm))"
  shows "online_since (fst (track_loop E um pm sl)) u = None"
    and "game_since (fst (track_loop E um pm sl)) u = None"
    and "offline_events u (sent (snd (track_loop E um pm sl))) =
           offline_events u (sent (snd sl)) @ [offline_notif now u (name_of um u) (fst sl)]"
proof -
  from track_loop_decompose[OF assms(1,2), where sl=sl and E=E and um=um] obtain sl' sl'' where
    h: "online_since (fst sl') u = online_since (fst sl) u"
    "game_since (fst sl') u = game_since (fst sl) u"
    "offline_events u (sent (snd sl')) = offline_events u (sent (snd sl))"
    "last_online_set (fst sl') = last_online_set (fst sl)"
    "clock_reads (fst sl') = clock_reads (fst sl) + length (takeWhile (\<lambda>x. fst x \<noteq> u) pm)"
    "sl'' = track_one E um (u, p) sl'"
    "online_since (fst (track_loop E um pm sl)) u = online_since (fst sl'') u"
    "game_since (fst (track_loop E um pm sl)) u = game_since (fst sl'') u"
    "offline_events u (sent (snd (track_loop E um pm sl))) = offline_events u (sent (snd sl''))"
    by blast
  have "u \<in> last_online_set (fst sl')" using h(4) assms(4) by simp
  note s = track_one_self_offline_in[OF assms(3) this, where E=E and um=um]
  show "online_since (fst (track_loop E um pm sl)) u = None" using h s(1) by simp
  show "game_since (fst (track_loop E um pm sl)) u = None" using h s(2) by simp
  show "offline_events u (sent (snd (track_loop E um pm sl))) =
           offline_events u (sent (snd sl)) @ [offline_notif now u (name_of um u) (fst sl)]"
    using h s(3) offline_notif_cong[OF h(1) h(2)] by (simp add: now_def)
qed

lemma track_loop_observed_offline_out:
  assumes "distinct (map fst pm)" "map_of pm u = Some p" "user_presence_type p = 0"
    "u \<notin> last_online_set (fst sl)"
  shows "online_since (fst (track_loop E um pm sl)) u = online_since (fst sl) u"
    and "game_since (fst (track_loop E um pm sl)) u = game_since (fst sl) u"
    and "offline_events u (sent (snd (track_loop E um pm sl))) = offline_events u (sent (snd sl))"
proof -
  from track_loop_decompose[OF assms(1,2), where sl=sl and E=E and um=um] obtain sl' sl'' where
    h: "online_since (fst sl') u = online_since (fst sl) u"
    "game_since (fst sl') u = game_since (fst sl) u"
    "offline_events u (sent (snd sl')) = offline_events u (sent (snd sl))"
    "last_online_set (fst sl') = last_online_set (fst sl)"
    "clock_reads (fst sl') = clock_reads (fst sl) + length (takeWhile (\<lambda>x. fst x \<noteq> u) pm)"
    "sl'' = track_one E um (u, p) sl'"
    "online_since (fst (track_loop E um pm sl)) u = online_since (fst sl'') u"
    "game_since (fst (track_loop E um pm sl)) u = game_since (fst sl'') u"
    "offline_events u (sent (snd (track_loop E um pm sl))) = offline_events u (sent (snd sl''))"
    by blast
  have "u \<notin> last_online_set (fst sl')" using h(4) assms(4) by simp
  note s = track_one_self_offline_out[OF assms(3) this, where E=E and um=um]
  show "online_since (fst (track_loop E um pm sl)) u = online_since (fst sl) u" using h s(1) by simp
  show "game_since (fst (track_loop E um pm sl)) u = game_since (fst sl) u" using h s(2) by simp
  show "offline_events u (sent (snd (track_loop E um pm sl))) = offline_events u (sent (snd sl))"
    using h s(3) by simp
qed



lemma observed_None: "observed i u = None \<Longrightarrow> u \<notin> fst ` set (presence_map_of (presences i))"
  by (simp add: observed_def map_of_eq_None_iff)

lemma observed_Some:
  "observed i u = Some t \<Longrightarrow>
   \<exists>p. map_of (presence_map_of (presences i)) u = Some p \<and> user_presence_type p = t"
  by (auto simp add: observed_def)

text \<open>What a run does to a user it has a record of.\<close>

lemma tick_body_observed_online:
  assumes "observed i u = Some t" "t \<noteq> 0"
  shows "online_since (fst (tick_body E i s)) u =
           Some (case online_since s u of
                   None \<Rightarrow> clock E (clock_reads s + iteration_of i u) | Some x \<Rightarrow> x)"
    and "game_since (fst (tick_body E i s)) u =
           (if t = 2
            then Some (case game_since s u of
                         None \<Rightarrow> clock E (clock_reads s + iteration_of i u) | Some x \<Rightarrow> x)
            else None)"
    and "offline_events u (events (snd (tick_body E i s))) = []"
proof -
  from observed_Some[OF assms(1)] obtain p where
    p: "map_of (presence_map_of (presences i)) u = Some p" and t: "user_presence_type p = t"
    by blast
  have nz: "user_presence_type p \<noteq> 0" using t assms(2) by simp
  note L = track_loop_observed_online[OF distinct_presence_map_of p nz,
      where E=E and um="usernames i" and sl="(s, no_locals)"]
  show "online_since (fst (tick_body E i s)) u =
           Some (case online_since s u of
                   None \<Rightarrow> clock E (clock_reads s + iteration_of i u) | Some x \<Rightarrow> x)"
    using L(1) by (simp add: tick_body_online_since iteration_of_def cong: option.case_cong)
  show "game_since (fst (tick_body E i s)) u =
           (if t = 2
            then Some (case game_since s u of
                         None \<Rightarrow> clock E (clock_reads s + iteration_of i u) | Some x \<Rightarrow> x)
            else None)"
    using L(2) t by (simp add: tick_body_game_since iteration_of_def cong: option.case_cong)
  show "offline_events u (events (snd (tick_body E i s))) = []"
    unfolding tick_body_offline_events L(3) by (simp add: no_locals_def offline_events_def)
qed

lemma tick_body_observed_offline_in:
  assumes "observed i u = Some 0" "u \<in> last_online_set s"
  shows "online_since (fst (tick_body E i s)) u = None"
    and "game_since (fst (tick_body E i s)) u = None"
    and "offline_events u (events (snd (tick_body E i s))) =
           [offline_notif (clock E (clock_reads s + iteration_of i u)) u (name_of (usernames i) u) s]"
proof -
  from observed_Some[OF assms(1)] obtain p where
    p: "map_of (presence_map_of (presences i)) u = Some p" and t: "user_presence_type p = 0"
    by blast
  have l: "u \<in> last_online_set (fst (s, no_locals))" using assms(2) by simp
  note L = track_loop_observed_offline_in[OF distinct_presence_map_of p t l,
      where E=E and um="usernames i"]
  show "online_since (fst (tick_body E i s)) u = None"
    using L(1) by (simp add: tick_body_online_since)
  show "game_since (fst (tick_body E i s)) u = None"
    using L(2) by (simp add: tick_body_game_since)
  show "offline_events u (events (snd (tick_body E i s))) =
           [offline_notif (clock E (clock_reads s + iteration_of i u)) u (name_of (usernames i) u) s]"
    unfolding tick_body_offline_events L(3)
    by (simp add: no_locals_def offline_events_def iteration_of_def)
qed

lemma tick_body_observed_offline_out:
  assumes "observed i u = Some 0" "u \<notin> last_online_set s"
  shows "online_since (fst (tick_body E i s)) u = online_since s u"
    and "game_since (fst (tick_body E i s)) u = game_since s u"
    and "offline_events u (events (snd (tick_body E i s))) = []"
proof -
  from observed_Some[OF assms(1)] obtain p where
    p: "map_of (presence_map_of (presences i)) u = Some p" and t: "user_presence_type p = 0"
    by blast
  have l: "u \<notin> last_online_set (fst (s, no_locals))" using assms(2) by simp
  note L = track_loop_observed_offline_out[OF distinct_presence_map_of p t l,
      where E=E and um="usernames i"]
  show "online_since (fst (tick_body E i s)) u = online_since s u"
    using L(1) by (simp add: tick_body_online_since)
  show "game_since (fst (tick_body E i s)) u = game_since s u"
    using L(2) by (simp add: tick_body_game_since)
  show "offline_events u (events (snd (tick_body E i s))) = []"
    unfolding tick_body_offline_events L(3) by (simp add: no_locals_def offline_events_def)
qed

lemma tick_body_unobserved:
  assumes "observed i u = None"
  shows "online_events u (events (snd (tick_body E i s))) = []"
    and "offline_events u (events (snd (tick_body E i s))) = []"
    and "online_since (fst (tick_body E i s)) u = online_since s u"
    and "game_since (fst (tick_body E i s)) u = game_since s u"
proof -
  have a: "u \<notin> fst ` set (presence_map_of (presences i))"
    using assms by (rule observed_None)
  have "length (online_events u (events (snd (tick_body E i s)))) = 0"
    using assms by (simp add: tick_body_online_count)
  then show "online_events u (events (snd (tick_body E i s))) = []" by simp
  show "offline_events u (events (snd (tick_body E i s))) = []"
    unfolding tick_body_offline_events track_loop_other(3)[OF a]
    by (simp add: no_locals_def offline_events_def)
  show "online_since (fst (tick_body E i s)) u = online_since s u"
    by (simp add: tick_body_online_since track_loop_other(1)[OF a])
  show "game_since (fst (tick_body E i s)) u = game_since s u"
    by (simp add: tick_body_game_since track_loop_other(2)[OF a])
qed

section \<open>The friend list of the status box\<close>

lemma sorted_friends:
  "sorted (map (\<lambda>x. str_lower E (fst (snd x))) (friends_text (render_status E dls now)))"
proof -
  have "map (\<lambda>x. str_lower E (fst (snd x))) (enumerate 1 (sort_display_lines E dls))
          = map (\<lambda>y. str_lower E (fst y)) (map snd (enumerate 1 (sort_display_lines E dls)))"
    by (simp add: comp_def del: map_snd_enumerate)
  also have "\<dots> = map (\<lambda>y. str_lower E (fst y)) (sort_display_lines E dls)"
    by simp
  finally show ?thesis
    by (simp add: render_status_def Let_def sort_display_lines_def)
qed

section \<open>The polling task as a whole\<close>

text \<open>
  With a list of monitored users that is not empty the run is abandoned at line 187;
  with an empty one it goes on with no presence record at all.
\<close>

lemma get_usernames_raises: "get_usernames post ids = Inl TypeError"
  by (simp add: get_usernames_def await_async_generator_def)

lemma update_status_message_abandoned:
  assumes "\<not> is_closed" "channels_found" "monitored \<noteq> []"
  shows "update_status_message E is_closed channels_found monitored pp up D s
           = (s, Abandoned TypeError)"
  using assms
  by (cases monitored)
     (simp_all add: update_status_message_def get_presences_def await_async_generator_def)

lemma update_status_message_empty:
  assumes "\<not> is_closed" "channels_found"
  shows "update_status_message E is_closed channels_found [] pp up D s
           = (fst (tick_body E \<lparr>presences = [], usernames = Map.empty, answers = D\<rparr> s),
              Completed (snd (tick_body E \<lparr>presences = [], usernames = Map.empty, answers = D\<rparr> s)))"
  using assms
  by (simp add: update_status_message_def get_presences_def presence_map_of_def Let_def)

text \<open>
  Whatever it is given, a run changes no timer and sends no notification: it is skipped,
  or abandoned at line 187, or it completes on an empty presence response.
\<close>

lemma tick_body_no_presences:
  "online_since (fst (tick_body E \<lparr>presences = [], usernames = um, answers = D\<rparr> s)) = online_since s"
  "game_since (fst (tick_body E \<lparr>presences = [], usernames = um, answers = D\<rparr> s)) = game_since s"
  "events (snd (tick_body E \<lparr>presences = [], usernames = um, answers = D\<rparr> s)) = []"
  by (simp_all add: tick_body_def Let_def presence_map_of_def no_locals_def new_online_def
      clock_read_def)

lemma update_status_message_inert:
  "online_since (fst (update_status_message E c f monitored pp up D s)) = online_since s"
  "game_since (fst (update_status_message E c f monitored pp up D s)) = game_since s"
  "run_events (snd (update_status_message E c f monitored pp up D s)) = []"
proof -
  consider "c \<or> \<not> f" | "\<not> c" "f" "monitored \<noteq> []" | "\<not> c" "f" "monitored = []"
    by blast
  then have "online_since (fst (update_status_message E c f monitored pp up D s)) = online_since s
      \<and> game_since (fst (update_status_message E c f monitored pp up D s)) = game_since s
      \<and> run_events (snd (update_status_message E c f monitored pp up D s)) = []"
  proof cases
    case 1
    then show ?thesis by (auto simp add: update_status_message_def run_events_def)
  next
    case 2
    then show ?thesis
      by (simp add: update_status_message_abandoned run_events_def)
  next
    case 3
    then show ?thesis
      by (simp add: update_status_message_empty tick_body_no_presences run_events_def)
  qed
  then show "online_since (fst (update_status_message E c f monitored pp up D s)) = online_since s"
    and "game_since (fst (update_status_message E c f monitored pp up D s)) = game_since s"
    and "run_events (snd (update_status_message E c f monitored pp up D s)) = []"
    by simp_all
qed


section \<open>The batching fetcher\<close>

text \<open>
  C5. The claim has \<open>get_presences\<close> return the concatenation of the results of the
  successful chunks. The chunks that \<open>chunked\<close> would yield are the ones of the claim
  (\<open>concat_chunked\<close>, \<open>chunked_sizes\<close>, \<open>chunked_250\<close>), and the loop would skip a
  chunk answered with another status than 200 (\<open>presence_loop_concat\<close>). But on a
  sequence that is not empty the function evaluates \<open>await chunked(...)\<close> before it
  issues any call, and that raises \<open>TypeError\<close>: no chunk is requested and nothing is
  returned, whatever the upstream service would have answered.
\<close>

theorem get_presences_nonempty_raises:
  "get_presences post (u # us) = Inl TypeError"
  by (simp add: get_presences_def await_async_generator_def)

section \<open>Users without a presence record\<close>

lemmas example_defs = tick_of_def seen_def test_env_def initial_state_def accepting_def
  presence_map_of_def no_locals_def new_online_def user_presence_type_def holds_handle_def
  observed_def iteration_of_def name_of_def

lemmas run_defs = tick_body_def Let_def track_one_def mark_online_def pop_timers_def
  clock_read_def now_wib_def publish_def send_new_def persist_def offline_notif_def
  online_events_def offline_events_def

text \<open>
  C10. A user that has no record in the presence response of a run gets no online and
  no offline notification in that run, and its entries of \<open>online_since\<close> and
  \<open>game_since\<close> are the ones it had before the run.
\<close>

theorem absent_identity_untouched:
  assumes "observed i u = None"
  shows "online_events u (events (snd (tick_body E i s))) = []
       \<and> offline_events u (events (snd (tick_body E i s))) = []
       \<and> online_since (fst (tick_body E i s)) u = online_since s u
       \<and> game_since (fst (tick_body E i s)) u = game_since s u"
  using tick_body_unobserved[OF assms, of E s] by simp

theorem absent_identity_untouched_witness:
  "observed (tick_of [seen 8 1]) 7 = None
   \<and> online_events 7 (events (snd (tick_body test_env (tick_of [seen 8 1])
        (fst (tick_body test_env (tick_of [seen 7 2]) (initial_state None)))))) = []
   \<and> offline_events 7 (events (snd (tick_body test_env (tick_of [seen 8 1])
        (fst (tick_body test_env (tick_of [seen 7 2]) (initial_state None)))))) = []
   \<and> online_since (fst (tick_body test_env (tick_of [seen 8 1])
        (fst (tick_body test_env (tick_of [seen 7 2]) (initial_state None))))) 7 = Some 0
   \<and> game_since (fst (tick_body test_env (tick_of [seen 8 1])
        (fst (tick_body test_env (tick_of [seen 7 2]) (initial_state None))))) 7 = Some 0"
proof -
  have h: "observed (tick_of [seen 8 1]) 7 = None"
    by (simp add: example_defs)
  have o: "online_since (fst (tick_body test_env (tick_of [seen 7 2]) (initial_state None))) 7
             = Some 0"
    by (simp add: example_defs run_defs)
  have g: "game_since (fst (tick_body test_env (tick_of [seen 7 2]) (initial_state None))) 7
             = Some 0"
    by (simp add: example_defs run_defs)
  show ?thesis
    using absent_identity_untouched[OF h, of test_env
        "fst (tick_body test_env (tick_of [seen 7 2]) (initial_state None))"] h o g
    by simp
qed

section \<open>The online set of the previous run\<close>

text \<open>
  C7. After a run, \<open>last_online_set\<close> is the set of the users that the run observed
  with a presence type other than 0, whatever the destination answered to the
  publication of the status message.
\<close>

theorem last_online_set_replaced:
  "last_online_set (fst (tick_body E (i\<lparr>answers := D\<rparr>) s)) =
     {u. \<exists>t. observed i u = Some t \<and> t \<noteq> 0}"
  by (simp add: tick_body_last_online_set observed_def)

section \<open>A user reported online\<close>


section \<open>A user reported offline after it was reported online\<close>



section \<open>A user reported playing\<close>


section \<open>The warning before the restart\<close>

text \<open>
  C3, as the claim states it, fails. Six checks one second apart, the first 42900
  seconds after the start, send the warning five times.
\<close>

theorem warning_repeated_counterexample:
  "warnings_sent test_env (Channel True)
     [42900000000, 42901000000, 42902000000, 42903000000, 42904000000, 42905000000] = 5"
  by (simp add: warnings_sent_def auto_restart_check_def test_env_def total_seconds_int_def
      RESTART_INTERVAL_def Let_def)

text \<open>
  C3, amended. A check sends the warning when the channel is found and the whole
  seconds elapsed since the start are at least the interval minus 300 and less than
  the interval minus 295, and at no other check: every check that falls into those
  five seconds sends it.
\<close>

theorem warning_window:
  "filter (\<lambda>n. n = RestartWarning) (notifs (auto_restart_check E ch now)) =
     (if ch \<noteq> NoChannel
         \<and> RESTART_INTERVAL - 300 \<le> total_seconds_int (now - START_TIME E)
         \<and> total_seconds_int (now - START_TIME E) < RESTART_INTERVAL - 295
      then [RestartWarning] else [])"
proof (cases ch)
  case NoChannel
  then show ?thesis by (simp add: auto_restart_check_def Let_def)
next
  case (Channel ok)
  then show ?thesis
    by (cases ok) (auto simp add: auto_restart_check_def Let_def)
qed

section \<open>The publisher\<close>

text \<open>
  C8. With a handle, when the message is not found and \<open>send\<close> returns the message
  \<open>m\<close>, the run creates that one message, and \<open>m\<close> becomes the handle, in memory and
  in \<open>state.json\<close>. With a handle, when the edit fails for lack of permission or for
  another reason, nothing is created, a warning is logged and the handle stays. Without
  a handle, when \<open>send\<close> returns the message \<open>m\<close>, the run creates that one message
  and \<open>m\<close> becomes the handle, in memory and in \<open>state.json\<close>.
\<close>

theorem publisher_cases:
  "(holds_handle s \<and> edit_result D = NotFound \<and> send_result D = Some m \<and> write_ok D \<longrightarrow>
      created (snd (publish D s)) = [m]
      \<and> status_message_id (fst (publish D s)) = Some m
      \<and> state_file (fst (publish D s)) = Some m)
   \<and> (holds_handle s \<and> (edit_result D = Forbidden \<or> edit_result D = EditFailed) \<longrightarrow>
      created (snd (publish D s)) = []
      \<and> logged (snd (publish D s)) \<noteq> []
      \<and> status_message_id (fst (publish D s)) = status_message_id s)
   \<and> (\<not> holds_handle s \<and> send_result D = Some m \<and> write_ok D \<longrightarrow>
      created (snd (publish D s)) = [m]
      \<and> status_message_id (fst (publish D s)) = Some m
      \<and> state_file (fst (publish D s)) = Some m)"
  by (auto simp add: publish_defs split: if_splits)

theorem publisher_cases_witness:
  "holds_handle (initial_state (Some 5))
   \<and> created (snd (publish \<lparr>edit_result = NotFound, send_result = Some 9, write_ok = True\<rparr>
         (initial_state (Some 5)))) = [9]
   \<and> status_message_id (fst (publish
         \<lparr>edit_result = NotFound, send_result = Some 9, write_ok = True\<rparr>
         (initial_state (Some 5)))) = Some 9
   \<and> state_file (fst (publish \<lparr>edit_result = NotFound, send_result = Some 9, write_ok = True\<rparr>
         (initial_state (Some 5)))) = Some 9
   \<and> created (snd (publish \<lparr>edit_result = Forbidden, send_result = Some 9, write_ok = True\<rparr>
         (initial_state (Some 5)))) = []
   \<and> logged (snd (publish \<lparr>edit_result = Forbidden, send_result = Some 9, write_ok = True\<rparr>
         (initial_state (Some 5)))) \<noteq> []
   \<and> status_message_id (fst (publish
         \<lparr>edit_result = Forbidden, send_result = Some 9, write_ok = True\<rparr>
         (initial_state (Some 5)))) = Some 5
   \<and> \<not> holds_handle (initial_state None)
   \<and> created (snd (publish accepting (initial_state None))) = [1]
   \<and> status_message_id (fst (publish accepting (initial_state None))) = Some 1
   \<and> state_file (fst (publish accepting (initial_state None))) = Some 1"
proof -
  have a: "holds_handle (initial_state (Some 5))" "\<not> holds_handle (initial_state None)"
    "status_message_id (initial_state (Some 5)) = Some 5"
    by (simp_all add: holds_handle_def initial_state_def)
  show ?thesis
    using a
      publisher_cases[of "initial_state (Some 5)"
        "\<lparr>edit_result = NotFound, send_result = Some 9, write_ok = True\<rparr>" 9]
      publisher_cases[of "initial_state (Some 5)"
        "\<lparr>edit_result = Forbidden, send_result = Some 9, write_ok = True\<rparr>" 9]
      publisher_cases[of "initial_state None" accepting 1]
    by (simp add: accepting_def)
qed

section \<open>The status renderer\<close>

text \<open>
  C9. The status box is a function of the lines, of \<open>START_TIME\<close> and of the clock
  value read for it: two environments that agree on \<open>START_TIME\<close> and on the two
  library functions give the same box for the same lines and the same clock value,
  whatever their other clock values are. The lines of the box are the lines given, in
  ascending order of their lower-cased names, numbered from 1.
\<close>

theorem renderer_deterministic_sorted:
  "(START_TIME E' = START_TIME E \<and> str_lower E' = str_lower E \<and> strftime E' = strftime E
      \<longrightarrow> render_status E' dls now = render_status E dls now)
   \<and> sorted (map (\<lambda>x. str_lower E (fst (snd x))) (friends_text (render_status E dls now)))
   \<and> mset (map snd (friends_text (render_status E dls now))) = mset dls
   \<and> map fst (friends_text (render_status E dls now)) = [1 ..< Suc (length dls)]"
proof -
  have 1: "START_TIME E' = START_TIME E \<and> str_lower E' = str_lower E \<and> strftime E' = strftime E
      \<longrightarrow> render_status E' dls now = render_status E dls now"
    by (simp add: render_status_def sort_display_lines_def)
  have 3: "mset (map snd (friends_text (render_status E dls now))) = mset dls"
    by (simp add: render_status_def Let_def sort_display_lines_def)
  have 4: "map fst (friends_text (render_status E dls now)) = [1 ..< Suc (length dls)]"
    by (simp add: render_status_def Let_def sort_display_lines_def)
  from 1 sorted_friends 3 4 show ?thesis by blast
qed

theorem renderer_deterministic_sorted_witness:
  "START_TIME (test_env\<lparr>clock := \<lambda>k. 0\<rparr>) = START_TIME test_env
   \<and> str_lower (test_env\<lparr>clock := \<lambda>k. 0\<rparr>) = str_lower test_env
   \<and> strftime (test_env\<lparr>clock := \<lambda>k. 0\<rparr>) = strftime test_env
   \<and> render_status (test_env\<lparr>clock := \<lambda>k. 0\<rparr>)
        [(''Bob'', ''1s'', ''x'', ''0s''), (''alice'', ''2s'', ''y'', ''0s'')] 5000000
      = render_status test_env
        [(''Bob'', ''1s'', ''x'', ''0s''), (''alice'', ''2s'', ''y'', ''0s'')] 5000000
   \<and> sorted (map (\<lambda>x. str_lower test_env (fst (snd x)))
        (friends_text (render_status test_env
           [(''Bob'', ''1s'', ''x'', ''0s''), (''alice'', ''2s'', ''y'', ''0s'')] 5000000)))
   \<and> map fst (friends_text (render_status test_env
        [(''Bob'', ''1s'', ''x'', ''0s''), (''alice'', ''2s'', ''y'', ''0s'')] 5000000)) = [1, 2]
   \<and> map (\<lambda>x. fst (snd x)) (friends_text (render_status test_env
        [(''Bob'', ''1s'', ''x'', ''0s''), (''alice'', ''2s'', ''y'', ''0s'')] 5000000))
      = [''alice'', ''Bob'']"
proof -
  have o: "map (\<lambda>x. fst (snd x)) (friends_text (render_status test_env
        [(''Bob'', ''1s'', ''x'', ''0s''), (''alice'', ''2s'', ''y'', ''0s'')] 5000000))
      = [''alice'', ''Bob'']"
    by (simp add: render_status_def sort_display_lines_def test_env_def ascii_lower_def Let_def
        less_char_def less_eq_char_def)
  have h: "START_TIME (test_env\<lparr>clock := \<lambda>k. 0\<rparr>) = START_TIME test_env
      \<and> str_lower (test_env\<lparr>clock := \<lambda>k. 0\<rparr>) = str_lower test_env
      \<and> strftime (test_env\<lparr>clock := \<lambda>k. 0\<rparr>) = strftime test_env"
    by simp
  have n: "[1 ..< Suc (length [(''Bob'', ''1s'', ''x'', ''0s''), (''alice'', ''2s'', ''y'', ''0s'')])]
      = [1, 2]"
    by (simp add: upt_rec)
  show ?thesis
    using h n o renderer_deterministic_sorted[of "test_env\<lparr>clock := \<lambda>k. 0\<rparr>" test_env
        "[(''Bob'', ''1s'', ''x'', ''0s''), (''alice'', ''2s'', ''y'', ''0s'')]" 5000000]
    by simp
qed

end
